theory Spec2Isabelle
  imports Complex_Main
begin

chapter \<open>The embedding\<close>

section \<open>Conventions\<close>

text \<open>
  The development embeds the document-composition pipeline of \<^verbatim>\<open>stratagem.py\<close>.
  Python floats are idealised as exact rationals (\<^typ>\<open>rat\<close>): the step \<^verbatim>\<open>0.2\<close> is the
  rational one fifth, and rounding is not modelled. Strings are HOL strings; a character is
  one byte, so the whitespace and digit classes below are the ASCII parts of Python's
  Unicode classes. A value that may be \<^verbatim>\<open>None\<close> is an \<^typ>\<open>'a option\<close>.
  Exceptions are values of type \<open>error\<close>; a call that may not return has an option
  result, \<open>None\<close> meaning that it runs forever.
\<close>

datatype error = IndexError | TypeError | ZeroDivisionError | UnboundLocalError

type_synonym rect = "rat \<times> rat \<times> rat \<times> rat"

text \<open>The operations a reportlab canvas records, in call order.\<close>

datatype canvas_op =
    SetFont string rat
  | DrawString rat rat string
  | DrawCentredString rat rat string
  | DrawImage string rat rat rat rat
  | SetFillColorRGB rat rat rat
  | SaveState
  | RestoreState
  | Translate rat rat
  | Rotate rat
  | ShowPage

type_synonym canvas = "canvas_op list"

text \<open>
  \<^verbatim>\<open>stringWidth(text, font, size)\<close> belongs to reportlab, not to the repository: it is a
  parameter \<open>sw\<close> of every function that measures text.
\<close>

type_synonym string_width = "string \<Rightarrow> string \<Rightarrow> rat \<Rightarrow> rat"

section \<open>String helpers\<close>

definition is_space :: "char \<Rightarrow> bool" where
  "is_space c = (c \<in> set [CHR '' '', CHR 0x09, CHR 0x0A, CHR 0x0B, CHR 0x0C, CHR 0x0D,
                            CHR 0x1C, CHR 0x1D, CHR 0x1E, CHR 0x1F])"

definition is_digit :: "char \<Rightarrow> bool" where
  "is_digit c = (c \<in> set ''0123456789'')"

text \<open>\<^verbatim>\<open>str.strip()\<close>: whitespace removed at both ends.\<close>

definition strip :: "string \<Rightarrow> string" where
  "strip s = rev (dropWhile is_space (rev (dropWhile is_space s)))"

text \<open>\<^verbatim>\<open>s or ""\<close> for a string that may be \<^verbatim>\<open>None\<close>.\<close>

definition or_empty :: "string option \<Rightarrow> string" where
  "or_empty s = (case s of None \<Rightarrow> [] | Some t \<Rightarrow> t)"

text \<open>\<^verbatim>\<open>norm(s) = (s or "").strip()\<close>.\<close>

definition norm_str :: "string option \<Rightarrow> string" where
  "norm_str s = strip (or_empty s)"

text \<open>\<^verbatim>\<open>re.sub(r"\D", "", s)\<close>: the digits of a string, in order.\<close>

definition only_digits :: "string \<Rightarrow> string" where
  "only_digits s = filter is_digit s"

definition split_ssn :: "string option \<Rightarrow> string \<times> string \<times> string" where
  "split_ssn ssn =
     (let digits = only_digits (or_empty ssn)
      in if length digits = 9
         then (take 3 digits, take 2 (drop 3 digits), drop 5 digits)
         else ([], [], []))"

definition split_ein :: "string option \<Rightarrow> string \<times> string" where
  "split_ein ein =
     (let digits = only_digits (or_empty ein)
      in if length digits = 9
         then (take 2 digits, drop 2 digits)
         else ([], []))"

definition rect_center :: "rect \<Rightarrow> rat \<times> rat" where
  "rect_center r = (case r of (x0, y0, x1, y1) \<Rightarrow> ((x0 + x1) / 2, (y0 + y1) / 2))"

section \<open>Vector drawing helpers\<close>

subsection \<open>Single-line fitter\<close>

text \<open>
  The loop of \<^verbatim>\<open>draw_text_fit_vec\<close>:
  \<^verbatim>\<open>while size >= min_size and stringWidth(text, font, size) > w: size -= 0.2\<close>.
  The measure of the text at a size is the argument \<open>wd\<close>.
\<close>

function fit_loop :: "(rat \<Rightarrow> rat) \<Rightarrow> rat \<Rightarrow> rat \<Rightarrow> rat \<Rightarrow> rat" where
  "fit_loop wd w min_size sz =
     (if min_size \<le> sz \<and> w < wd sz then fit_loop wd w min_size (sz - 0.2) else sz)"
  by pat_completeness auto

lemma fit_loop_measure:
  fixes sz m :: rat
  assumes "m \<le> sz"
  shows "nat (\<lfloor>(sz - 0.2 - m) * 5\<rfloor> + 1) < nat (\<lfloor>(sz - m) * 5\<rfloor> + 1)"
proof -
  have e: "(sz - 0.2 - m) * 5 = (sz - m) * 5 - 1" by (simp add: algebra_simps)
  have "0 \<le> \<lfloor>(sz - m) * 5\<rfloor>" using assms by simp
  then show ?thesis unfolding e by simp
qed

termination fit_loop
proof (relation "measure (\<lambda>(wd, w, min_size, sz). nat (\<lfloor>(sz - min_size) * 5\<rfloor> + 1))")
  show "wf (measure (\<lambda>(wd :: rat \<Rightarrow> rat, w :: rat, min_size, sz).
          nat (\<lfloor>(sz - min_size) * 5\<rfloor> + 1)))"
    by simp
next
  fix wd :: "rat \<Rightarrow> rat" and w min_size sz :: rat
  assume "min_size \<le> sz \<and> w < wd sz"
  then show "((wd, w, min_size, sz - 0.2), (wd, w, min_size, sz))
      \<in> measure (\<lambda>(wd, w, min_size, sz). nat (\<lfloor>(sz - min_size) * 5\<rfloor> + 1))"
    using fit_loop_measure [of min_size sz] by simp
qed

declare fit_loop.simps [simp del]

text \<open>The size the fitter settles on: the loop, then \<^verbatim>\<open>size = max(size, min_size)\<close>.\<close>

definition fit_size :: "string_width \<Rightarrow> string \<Rightarrow> string \<Rightarrow> rat \<Rightarrow> rat \<Rightarrow> rat \<Rightarrow> rat" where
  "fit_size sw text font w max_size min_size =
     max (fit_loop (sw text font) w min_size max_size) min_size"

definition draw_text_fit_vec ::
  "string_width \<Rightarrow> canvas \<Rightarrow> string option \<Rightarrow> rect option \<Rightarrow> string \<Rightarrow> rat \<Rightarrow> rat \<Rightarrow> rat
     \<Rightarrow> bool \<Rightarrow> canvas" where
  "draw_text_fit_vec sw c text rect font max_size min_size inset vcenter =
     (let text = norm_str text in
      if text = [] then c
      else case rect of
        None \<Rightarrow> c
      | Some (x0, y0, x1, y1) \<Rightarrow>
          let w = x1 - x0 - 2 * inset;
              sz = fit_size sw text font w max_size min_size;
              y = (if vcenter then y0 + (y1 - y0 - sz) / 2 + 0.5 else y0 + inset)
          in c @ [SetFont font sz, DrawString (x0 + inset) y text])"

section \<open>Watermark composer\<close>



text \<open>The value under \<^verbatim>\<open>"pages"\<close>: a string, a list of integers, or anything else.\<close>

datatype pages_val = PagesStr string | PagesList "int list" | PagesOther


definition get_or :: "'a option \<Rightarrow> 'a \<Rightarrow> 'a" where
  "get_or v d = (case v of None \<Rightarrow> d | Some a \<Rightarrow> a)"

definition FONT_MAIN :: string where
  "FONT_MAIN = ''Helvetica''"

definition FONT_BOLD :: string where
  "FONT_BOLD = ''Helvetica-Bold''"









fun is_draw_string :: "canvas_op \<Rightarrow> bool" where
  "is_draw_string (DrawString x y s) = True"
| "is_draw_string other = False"

definition count_drawn :: "canvas \<Rightarrow> nat" where
  "count_drawn c = length (filter is_draw_string c)"

section \<open>Metadata synthesizer\<close>

text \<open>
  A metadata record is a Python dict from keys such as \<^verbatim>\<open>/Title\<close> to strings: a map.
  \<^verbatim>\<open>pdf_date_now()\<close> reads the clock; its result at the time of the call is the
  parameter \<open>now\<close>.
\<close>

type_synonym info = "string \<rightharpoonup> string"

text \<open>\<^verbatim>\<open>dict.setdefault(k, v)\<close>: the key is set only when it is absent.\<close>

definition setdefault :: "info \<Rightarrow> string \<Rightarrow> string \<Rightarrow> info" where
  "setdefault m k v = (case m k of None \<Rightarrow> m(k \<mapsto> v) | Some old \<Rightarrow> m)"

definition finalize_info :: "info \<Rightarrow> info option \<Rightarrow> string \<Rightarrow> info" where
  "finalize_info template_info user_info now =
     (let out = template_info;
          out = out ++ (case user_info of None \<Rightarrow> Map.empty | Some u \<Rightarrow> u);
          out = setdefault out ''/Creator'' ''Designer 6.5'';
          out = setdefault out ''/Producer'' ''Designer 6.5'';
          out = out(''/CreationDate'' \<mapsto> now);
          out = out(''/ModDate'' := out ''/CreationDate'')
      in out)"

section \<open>Multi-line fitter\<close>

text \<open>
  \<^verbatim>\<open>str.splitlines()\<close> on the ASCII line boundaries (\<^verbatim>\<open>\n\<close>, \<^verbatim>\<open>\r\<close>, \<^verbatim>\<open>\r\n\<close>,
  \<^verbatim>\<open>\v\<close>, \<^verbatim>\<open>\f\<close>, \<^verbatim>\<open>\x1c\<close>, \<^verbatim>\<open>\x1d\<close>, \<^verbatim>\<open>\x1e\<close>), and \<^verbatim>\<open>str.split(" ")\<close>.
\<close>

definition is_linebreak :: "char \<Rightarrow> bool" where
  "is_linebreak c = (c \<in> set [CHR 0x0A, CHR 0x0B, CHR 0x0C, CHR 0x0D, CHR 0x1C, CHR 0x1D, CHR 0x1E])"

fun splitlines_from :: "string \<Rightarrow> string \<Rightarrow> string list" where
  "splitlines_from cur [] = (if cur = [] then [] else [cur])"
| "splitlines_from cur (c # cs) =
     (if c = CHR 0x0D \<and> cs \<noteq> [] \<and> hd cs = CHR 0x0A then cur # splitlines_from [] (tl cs)
      else if is_linebreak c then cur # splitlines_from [] cs
      else splitlines_from (cur @ [c]) cs)"

definition splitlines :: "string \<Rightarrow> string list" where
  "splitlines s = splitlines_from [] s"

fun split_sp :: "string \<Rightarrow> string list" where
  "split_sp [] = [[]]"
| "split_sp (c # cs) =
     (if c = CHR '' '' then [] # split_sp cs
      else (case split_sp cs of [] \<Rightarrow> [[c]] | w # ws \<Rightarrow> (c # w) # ws))"

text \<open>
  The loop over the words of one raw line. The state is the list of finished lines and the
  line being built; \<open>wd\<close> measures a string at the candidate size.
  \<^verbatim>\<open>trial = (cur + " " + w).strip()\<close>;
  \<^verbatim>\<open>if stringWidth(trial, font, size) <= max_w: cur = trial\<close>
  \<^verbatim>\<open>else: (if cur: lines.append(cur)); cur = w\<close>.
\<close>

fun wrap_words :: "(string \<Rightarrow> rat) \<Rightarrow> rat \<Rightarrow> string list \<Rightarrow> string \<Rightarrow> string list
    \<Rightarrow> string list \<times> string" where
  "wrap_words wd max_w lines cur [] = (lines, cur)"
| "wrap_words wd max_w lines cur (w # ws) =
     (let trial = strip (cur @ '' '' @ w)
      in if wd trial \<le> max_w then wrap_words wd max_w lines trial ws
         else wrap_words wd max_w (if cur \<noteq> [] then lines @ [cur] else lines) w ws)"

text \<open>
  The loop over the raw lines: \<^verbatim>\<open>cur = ""\<close>, the loop over the words, then
  \<^verbatim>\<open>if cur: lines.append(cur)\<close>.
\<close>

fun wrap_raws :: "(string \<Rightarrow> rat) \<Rightarrow> rat \<Rightarrow> string list \<Rightarrow> string list \<Rightarrow> string list" where
  "wrap_raws wd max_w lines [] = lines"
| "wrap_raws wd max_w lines (raw # raws) =
     (case wrap_words wd max_w lines [] (split_sp raw) of
        (lines', cur) \<Rightarrow> wrap_raws wd max_w (if cur \<noteq> [] then lines' @ [cur] else lines') raws)"

text \<open>The greedy word-wrap of a text at one size: \<^verbatim>\<open>lines = []\<close>, then the two loops.\<close>

definition wrap_text :: "string_width \<Rightarrow> string \<Rightarrow> rat \<Rightarrow> rat \<Rightarrow> string \<Rightarrow> string list" where
  "wrap_text sw font sz max_w text = wrap_raws (\<lambda>t. sw t font sz) max_w [] (splitlines text)"

text \<open>
  The size loop of \<^verbatim>\<open>draw_multiline_fit_vec\<close>:
  \<^verbatim>\<open>while size >= min_size: lines = ...; if len(lines) * line_h <= avail: break; size -= 0.2\<close>.
  The argument \<open>wrap\<close> is the word-wrap at a size, \<open>lines\<close> the variable \<^verbatim>\<open>lines\<close>, which
  is unbound (\<open>None\<close>) until the body has run once. The result is the size and the lines
  the drawing code after the loop sees.
\<close>

function multiline_loop :: "(rat \<Rightarrow> string list) \<Rightarrow> rat \<Rightarrow> rat \<Rightarrow> rat \<Rightarrow> rat
    \<Rightarrow> string list option \<Rightarrow> rat \<times> string list option" where
  "multiline_loop wrap avail leading min_size sz lines =
     (if min_size \<le> sz
      then (let lines' = wrap sz; line_h = sz * leading
            in if of_nat (length lines') * line_h \<le> avail then (sz, Some lines')
               else multiline_loop wrap avail leading min_size (sz - 0.2) (Some lines'))
      else (sz, lines))"
  by pat_completeness auto

termination multiline_loop
proof (relation "measure (\<lambda>(wrap, avail, leading, min_size, sz, lines).
                            nat (\<lfloor>(sz - min_size) * 5\<rfloor> + 1))")
  show "wf (measure (\<lambda>(wrap :: rat \<Rightarrow> string list, avail :: rat, leading :: rat, min_size, sz,
                        lines :: string list option). nat (\<lfloor>(sz - min_size) * 5\<rfloor> + 1)))"
    by simp
next
  fix wrap :: "rat \<Rightarrow> string list" and avail leading min_size sz :: rat
    and lines :: "string list option" and x :: "string list" and xa :: rat
  assume "min_size \<le> sz"
  then show "((wrap, avail, leading, min_size, sz - 0.2, Some x),
              (wrap, avail, leading, min_size, sz, lines))
      \<in> measure (\<lambda>(wrap, avail, leading, min_size, sz, lines).
                    nat (\<lfloor>(sz - min_size) * 5\<rfloor> + 1))"
    using fit_loop_measure [of min_size sz] by simp
qed

declare multiline_loop.simps [simp del]

text \<open>The fitting part of \<^verbatim>\<open>draw_multiline_fit_vec\<close>: the chosen size and the line list.\<close>

definition multiline_fit :: "string_width \<Rightarrow> string \<Rightarrow> string \<Rightarrow> rat \<Rightarrow> rat \<Rightarrow> rat \<Rightarrow> rat \<Rightarrow> rat
    \<Rightarrow> rat \<times> string list option" where
  "multiline_fit sw text font max_w avail max_size min_size leading =
     multiline_loop (\<lambda>sz. wrap_text sw font sz max_w text) avail leading min_size max_size None"

text \<open>
  The drawing loop: \<^verbatim>\<open>c.drawString(x0 + inset, y, ln); y -= line_h\<close>, left by
  \<^verbatim>\<open>break\<close> when \<^verbatim>\<open>y < y0 + inset\<close>.
\<close>

fun draw_lines :: "canvas \<Rightarrow> rat \<Rightarrow> rat \<Rightarrow> rat \<Rightarrow> rat \<Rightarrow> string list \<Rightarrow> canvas" where
  "draw_lines c x y line_h ymin [] = c"
| "draw_lines c x y line_h ymin (line # rest) =
     (if y - line_h < ymin then c @ [DrawString x y line]
      else draw_lines (c @ [DrawString x y line]) x (y - line_h) line_h ymin rest)"

text \<open>
  \<^verbatim>\<open>draw_multiline_fit_vec\<close>. When \<^verbatim>\<open>max_size < min_size\<close> the loop body never runs and
  \<^verbatim>\<open>for ln in lines\<close> raises \<^verbatim>\<open>UnboundLocalError\<close>.
\<close>

definition draw_multiline_fit_vec ::
  "string_width \<Rightarrow> canvas \<Rightarrow> string option \<Rightarrow> rect option \<Rightarrow> string \<Rightarrow> rat \<Rightarrow> rat \<Rightarrow> rat
     \<Rightarrow> rat \<Rightarrow> error + canvas" where
  "draw_multiline_fit_vec sw c text rect font max_size min_size inset leading =
     (let text = norm_str text in
      if text = [] then Inr c
      else case rect of
        None \<Rightarrow> Inr c
      | Some (x0, y0, x1, y1) \<Rightarrow>
          let max_w = x1 - x0 - 2 * inset
          in (case multiline_fit sw text font max_w (y1 - y0 - 2 * inset) max_size min_size leading of
                (sz, None) \<Rightarrow> Inl UnboundLocalError
              | (sz, Some lines) \<Rightarrow>
                  Inr (draw_lines (c @ [SetFont font sz]) (x0 + inset) (y1 - inset - sz)
                         (sz * leading) (y0 + inset) lines)))"

section \<open>Digit grid and check mark\<close>

text \<open>
  The loop of \<^verbatim>\<open>draw_digits_in_cells_vec\<close>:
  \<^verbatim>\<open>while size > 6.5 and stringWidth("8", font, size) > (cell_w - 1.0): size -= 0.2\<close>.
\<close>

function digit_loop :: "(rat \<Rightarrow> rat) \<Rightarrow> rat \<Rightarrow> rat \<Rightarrow> rat" where
  "digit_loop wd cell_w sz =
     (if 6.5 < sz \<and> cell_w - 1 < wd sz then digit_loop wd cell_w (sz - 0.2) else sz)"
  by pat_completeness auto

lemma digit_loop_measure:
  fixes sz :: rat
  assumes "6.5 < sz"
  shows "nat \<lceil>(sz - 0.2 - 6.5) * 5\<rceil> < nat \<lceil>(sz - 6.5) * 5\<rceil>"
proof -
  have e: "(sz - 0.2 - 6.5) * 5 = (sz - 6.5) * 5 - 1" by (simp add: algebra_simps)
  have "0 < (sz - 6.5) * 5" using assms by simp
  then have "0 < \<lceil>(sz - 6.5) * 5\<rceil>" by (simp only: less_ceiling_iff of_int_0)
  then show ?thesis unfolding e by (simp only: ceiling_diff_one)
qed

termination digit_loop
proof (relation "measure (\<lambda>(wd, cell_w, sz). nat \<lceil>(sz - 6.5) * 5\<rceil>)")
  show "wf (measure (\<lambda>(wd :: rat \<Rightarrow> rat, cell_w :: rat, sz). nat \<lceil>(sz - 6.5) * 5\<rceil>))"
    by simp
next
  fix wd :: "rat \<Rightarrow> rat" and cell_w sz :: rat
  assume "6.5 < sz \<and> cell_w - 1 < wd sz"
  then show "((wd, cell_w, sz - 0.2), (wd, cell_w, sz))
      \<in> measure (\<lambda>(wd, cell_w, sz). nat \<lceil>(sz - 6.5) * 5\<rceil>)"
    using digit_loop_measure [of sz] by simp
qed

declare digit_loop.simps [simp del]

text \<open>\<^verbatim>\<open>enumerate(digits[:slots])\<close> with one \<^verbatim>\<open>drawCentredString\<close> per digit.\<close>

definition draw_cells :: "rat \<Rightarrow> rat \<Rightarrow> rat \<Rightarrow> rat \<Rightarrow> string \<Rightarrow> canvas" where
  "draw_cells x0 inset cell_w y ds =
     map (\<lambda>(i, ch). DrawCentredString (x0 + inset + cell_w * (of_nat i + 0.5)) y [ch])
         (zip [0..<length ds] ds)"

text \<open>
  \<^verbatim>\<open>draw_digits_in_cells_vec\<close>. The division by \<^verbatim>\<open>float(slots)\<close> raises
  \<^verbatim>\<open>ZeroDivisionError\<close> for \<open>slots = 0\<close>, after the early return for an empty digit
  string or a missing rectangle.
\<close>

definition draw_digits_in_cells_vec ::
  "string_width \<Rightarrow> canvas \<Rightarrow> string option \<Rightarrow> rect option \<Rightarrow> nat \<Rightarrow> string \<Rightarrow> rat \<Rightarrow> rat
     \<Rightarrow> error + canvas" where
  "draw_digits_in_cells_vec sw c text rect slots font max_size inset =
     (let digits = only_digits (or_empty text) in
      if digits = [] then Inr c
      else case rect of
        None \<Rightarrow> Inr c
      | Some (x0, y0, x1, y1) \<Rightarrow>
          if slots = 0 then Inl ZeroDivisionError
          else
            let cell_w = (x1 - x0 - 2 * inset) / of_nat slots;
                sz = digit_loop (sw ''8'' font) cell_w max_size;
                y = y0 + (y1 - y0 - sz) / 2 + 0.5
            in Inr (c @ [SetFont font sz] @ draw_cells x0 inset cell_w y (take slots digits)))"

text \<open>The check mark \<^verbatim>\<open>CHECK_GLYPH\<close> (U+2713), as its three UTF-8 bytes.\<close>

definition CHECK_GLYPH :: string where
  "CHECK_GLYPH = [CHR 0xE2, CHR 0x9C, CHR 0x93]"

definition draw_check_vec :: "canvas \<Rightarrow> rect option \<Rightarrow> string \<Rightarrow> rat \<Rightarrow> string \<Rightarrow> canvas" where
  "draw_check_vec c rect glyph sz font =
     (case rect of
        None \<Rightarrow> c
      | Some r \<Rightarrow>
          (case rect_center r of
             (cx, cy) \<Rightarrow> c @ [SetFont font sz, DrawCentredString cx (cy - sz / 3.3) glyph]))"

section \<open>Template pages and the overlay composer\<close>

text \<open>
  A page of the template as the pipeline reads it: the size of its MediaBox (\<open>None\<close>
  when reading it raises, which \<^verbatim>\<open>get_page_size\<close> answers with the letter size), its
  annotations with name, field type and rectangle, and its content.
\<close>

record widget =
  wg_name :: string
  wg_type :: string
  wg_rect :: rect

record page =
  pg_mediabox :: "(rat \<times> rat) option"
  pg_annots :: "widget list"
  pg_content :: canvas

definition letter :: "rat \<times> rat" where
  "letter = (612, 792)"

definition get_page_size :: "page list \<Rightarrow> nat \<Rightarrow> error + rat \<times> rat" where
  "get_page_size pages i =
     (if i < length pages then Inr (get_or (pg_mediabox (pages ! i)) letter)
      else Inl IndexError)"

definition get_page_widgets :: "page list \<Rightarrow> nat \<Rightarrow> error + widget list" where
  "get_page_widgets pages i =
     (if i < length pages then Inr (pg_annots (pages ! i)) else Inl IndexError)"

text \<open>The field-role table \<^verbatim>\<open>roles\<close> of \<^verbatim>\<open>compose_overlay_page1\<close>.\<close>

definition roles :: "(string \<times> string) list" where
  "roles =
     [(''name'', ''f1_01[0]''), (''business'', ''f1_02[0]''),
      (''chk_individual'', ''c1_1[0]''), (''chk_c_corp'', ''c1_1[1]''),
      (''chk_s_corp'', ''c1_1[2]''), (''chk_partnership'', ''c1_1[3]''),
      (''chk_trust_estate'', ''c1_1[4]''), (''chk_llc'', ''c1_1[5]''),
      (''llc_code'', ''f1_03[0]''), (''chk_other'', ''c1_1[6]''), (''other_text'', ''f1_04[0]''),
      (''chk_3b'', ''c1_2[0]''), (''exempt'', ''f1_05[0]''), (''fatca'', ''f1_06[0]''),
      (''addr1'', ''f1_07[0]''), (''addr2'', ''f1_08[0]''),
      (''requester'', ''f1_09[0]''), (''accounts'', ''f1_10[0]''),
      (''ssn_1'', ''f1_11[0]''), (''ssn_2'', ''f1_12[0]''), (''ssn_3'', ''f1_13[0]''),
      (''ein_1'', ''f1_14[0]''), (''ein_2'', ''f1_15[0]'')]"

text \<open>
  \<^verbatim>\<open>rects = {w["name"]: w["rect"] for w in widgets}\<close> (a later widget of the same name
  wins) and the lookup \<^verbatim>\<open>r(key)\<close>.
\<close>

definition widget_rects :: "widget list \<Rightarrow> string \<Rightarrow> rect option" where
  "widget_rects widgets = map_of (rev (map (\<lambda>w. (wg_name w, wg_rect w)) widgets))"

definition role_rect :: "widget list \<Rightarrow> string \<Rightarrow> rect option" where
  "role_rect widgets key =
     (case map_of roles key of
        None \<Rightarrow> None
      | Some name \<Rightarrow> if name = [] then None else widget_rects widgets name)"

text \<open>
  \<^verbatim>\<open>register_fonts_for_overlay\<close>; whether the TrueType file can be registered is the
  parameter \<open>ttf_ok\<close>.
\<close>

definition register_fonts_for_overlay :: "bool \<Rightarrow> string \<times> string list \<times> string" where
  "register_fonts_for_overlay ttf_ok =
     (if ttf_ok then (''DejaVuSans'', [''DejaVuSans'', ''WarpA'', ''WarpB''], FONT_BOLD)
      else (''Helvetica'', [''Helvetica'', ''Courier'', ''Times-Roman''], ''Helvetica-Bold''))"

text \<open>\<^verbatim>\<open>FontCycler\<close>: the pool (\<^verbatim>\<open>fonts or [FONT_MAIN]\<close>) and the counter \<^verbatim>\<open>i\<close>.\<close>

definition cycler_fonts :: "string list \<Rightarrow> string list" where
  "cycler_fonts fonts = (if fonts = [] then [FONT_MAIN] else fonts)"

definition cycler_next :: "string list \<Rightarrow> nat \<Rightarrow> string \<times> nat" where
  "cycler_next fonts i = (fonts ! (i mod length fonts), i + 1)"

text \<open>
  What a raster helper renders into the PNG it saves. The pixels come from PIL and are
  not modelled: the description keeps the arguments that determine them.
\<close>

datatype raster =
    SingleLinePng string rat rat int string
  | MultiLinePng string rat rat int
  | DigitsGridPng string rat rat nat int

text \<open>\<^verbatim>\<open>int(x)\<close> of a float: truncation towards zero.\<close>

definition trunc :: "rat \<Rightarrow> int" where
  "trunc x = (if 0 \<le> x then \<lfloor>x\<rfloor> else \<lceil>x\<rceil>)"

text \<open>
  The state of one run of the overlay composer: the canvas, the counter of the font
  cycler, the list \<^verbatim>\<open>tmp_images\<close>, and the PNG files written so far with what they show.
  The name \<^verbatim>\<open>tempfile.NamedTemporaryFile\<close> gives the \<open>k\<close>-th file is the parameter
  \<open>env_tmp_png\<close>.
\<close>

record ov_state =
  ov_canvas :: canvas
  ov_cycler :: nat
  ov_tmp_images :: "string list"
  ov_pngs :: "(string \<times> raster) list"

record ov_env =
  env_sw :: string_width
  env_tmp_png :: "nat \<Rightarrow> string"
  env_fonts :: "string list"
  env_aggr :: bool
  env_widgets :: "widget list"
  env_today :: string

definition draw_image_into_canvas :: "canvas \<Rightarrow> string \<Rightarrow> rect option \<Rightarrow> canvas" where
  "draw_image_into_canvas c png_path rect =
     (case rect of
        None \<Rightarrow> c
      | Some (x0, y0, x1, y1) \<Rightarrow> c @ [DrawImage png_path x0 y0 (max 1 (x1 - x0)) (max 1 (y1 - y0))])"

text \<open>\<^verbatim>\<open>_save_png\<close>: a fresh temporary name, and the file written under it.\<close>

definition save_png :: "ov_env \<Rightarrow> raster \<Rightarrow> ov_state \<Rightarrow> string \<times> ov_state" where
  "save_png env img st =
     (let path = env_tmp_png env (length (ov_pngs st))
      in (path, st\<lparr>ov_pngs := ov_pngs st @ [(path, img)]\<rparr>))"

text \<open>
  The three drawing closures of \<^verbatim>\<open>compose_overlay_page1\<close>. In aggressive mode
  \<^verbatim>\<open>rect[2] - rect[0]\<close> raises \<^verbatim>\<open>TypeError\<close> when the rectangle is \<^verbatim>\<open>None\<close>; in
  vector mode \<^verbatim>\<open>cycler.next()\<close> is evaluated before the helper is called.
\<close>

definition draw_text :: "ov_env \<Rightarrow> rect option \<Rightarrow> string option \<Rightarrow> rat \<Rightarrow> string \<Rightarrow> ov_state
    \<Rightarrow> error + ov_state" where
  "draw_text env rect text max_size align st =
     (if env_aggr env then
        (case rect of
           None \<Rightarrow> Inl TypeError
         | Some (x0, y0, x1, y1) \<Rightarrow>
             (case save_png env (SingleLinePng (norm_str text) (x1 - x0) (y1 - y0)
                                   (trunc max_size) align) st of
                (png, st) \<Rightarrow>
                  Inr (st\<lparr>ov_tmp_images := ov_tmp_images st @ [png],
                          ov_canvas := draw_image_into_canvas (ov_canvas st) png rect\<rparr>)))
      else
        (case cycler_next (env_fonts env) (ov_cycler st) of
           (font, i) \<Rightarrow>
             Inr (st\<lparr>ov_cycler := i,
                     ov_canvas := draw_text_fit_vec (env_sw env) (ov_canvas st) text rect font
                                    max_size 7 2 True\<rparr>)))"

definition draw_multiline :: "ov_env \<Rightarrow> rect option \<Rightarrow> string option \<Rightarrow> rat \<Rightarrow> ov_state
    \<Rightarrow> error + ov_state" where
  "draw_multiline env rect text max_size st =
     (if env_aggr env then
        (case rect of
           None \<Rightarrow> Inl TypeError
         | Some (x0, y0, x1, y1) \<Rightarrow>
             (case save_png env (MultiLinePng (norm_str text) (x1 - x0) (y1 - y0)
                                   (trunc max_size)) st of
                (png, st) \<Rightarrow>
                  Inr (st\<lparr>ov_tmp_images := ov_tmp_images st @ [png],
                          ov_canvas := draw_image_into_canvas (ov_canvas st) png rect\<rparr>)))
      else
        (case cycler_next (env_fonts env) (ov_cycler st) of
           (font, i) \<Rightarrow>
             (case draw_multiline_fit_vec (env_sw env) (ov_canvas st) text rect font
                     max_size 7.5 2 1.2 of
                Inl e \<Rightarrow> Inl e
              | Inr c \<Rightarrow> Inr (st\<lparr>ov_cycler := i, ov_canvas := c\<rparr>))))"

definition draw_digits :: "ov_env \<Rightarrow> rect option \<Rightarrow> string \<Rightarrow> nat \<Rightarrow> rat \<Rightarrow> ov_state
    \<Rightarrow> error + ov_state" where
  "draw_digits env rect digits slots max_size st =
     (if env_aggr env then
        (case rect of
           None \<Rightarrow> Inl TypeError
         | Some (x0, y0, x1, y1) \<Rightarrow>
             if slots = 0 then Inl ZeroDivisionError
             else
               (case save_png env (DigitsGridPng (take slots (only_digits digits)) (x1 - x0)
                                     (y1 - y0) slots (trunc max_size)) st of
                  (png, st) \<Rightarrow>
                    Inr (st\<lparr>ov_tmp_images := ov_tmp_images st @ [png],
                            ov_canvas := draw_image_into_canvas (ov_canvas st) png rect\<rparr>)))
      else
        (case cycler_next (env_fonts env) (ov_cycler st) of
           (font, i) \<Rightarrow>
             (case draw_digits_in_cells_vec (env_sw env) (ov_canvas st) (Some digits) rect slots
                     font max_size 2 of
                Inl e \<Rightarrow> Inl e
              | Inr c \<Rightarrow> Inr (st\<lparr>ov_cycler := i, ov_canvas := c\<rparr>))))"

text \<open>Statements in sequence; the first exception ends the run.\<close>

fun run_steps :: "('s \<Rightarrow> error + 's) list \<Rightarrow> 's \<Rightarrow> error + 's" where
  "run_steps [] st = Inr st"
| "run_steps (f # fs) st = (case f st of Inl e \<Rightarrow> Inl e | Inr st' \<Rightarrow> run_steps fs st')"

section \<open>The data record and the sections of the overlay\<close>

text \<open>
  The JSON profile. A key that is absent or \<^verbatim>\<open>null\<close> is \<open>None\<close>; values are taken as
  strings, and the flag of line 3b as the truth value \<^verbatim>\<open>bool(...)\<close> gives.
\<close>

record profile =
  p_name :: "string option"
  p_business_name :: "string option"
  p_exempt_payee_code :: "string option"
  p_fatca_code :: "string option"
  p_address :: "string option"
  p_city :: "string option"
  p_state :: "string option"
  p_zip :: "string option"
  p_requester_info :: "string option"
  p_account_numbers :: "string option"
  p_classification :: "string option"
  p_llc_tax_class :: "string option"
  p_other_text :: "string option"
  p_line3b_foreign_flowthrough :: bool
  p_ssn :: "string option"
  p_ein :: "string option"
  p_signature :: "string option"
  p_signature_date :: "string option"

text \<open>\<^verbatim>\<open>str.lower()\<close> and \<^verbatim>\<open>str.upper()\<close> on the ASCII letters.\<close>

definition lower_str :: "string \<Rightarrow> string" where
  "lower_str s =
     map (\<lambda>c. case map_of (zip ''ABCDEFGHIJKLMNOPQRSTUVWXYZ'' ''abcdefghijklmnopqrstuvwxyz'') c of
                 None \<Rightarrow> c | Some l \<Rightarrow> l) s"

definition upper_str :: "string \<Rightarrow> string" where
  "upper_str s =
     map (\<lambda>c. case map_of (zip ''abcdefghijklmnopqrstuvwxyz'' ''ABCDEFGHIJKLMNOPQRSTUVWXYZ'') c of
                 None \<Rightarrow> c | Some u \<Rightarrow> u) s"

text \<open>\<^verbatim>\<open>ck(role_key)\<close>: the check mark, always as vector text in the bold font.\<close>

definition ck :: "ov_env \<Rightarrow> string \<Rightarrow> ov_state \<Rightarrow> error + ov_state" where
  "ck env role_key st =
     Inr (st\<lparr>ov_canvas := draw_check_vec (ov_canvas st) (role_rect (env_widgets env) role_key)
                              CHECK_GLYPH 9.5 FONT_BOLD\<rparr>)"

text \<open>
  The classification: \<^verbatim>\<open>cls = (data.get("classification", "") or "").lower().strip()\<close>
  and the chain of \<^verbatim>\<open>if\<close> and \<^verbatim>\<open>elif\<close>.
\<close>

definition classification :: "ov_env \<Rightarrow> profile \<Rightarrow> ov_state \<Rightarrow> error + ov_state" where
  "classification env d st =
     (let cls = strip (lower_str (or_empty (p_classification d))) in
      if cls \<in> set [''individual'', ''sole proprietor'', ''sole_proprietor'']
        then ck env ''chk_individual'' st
      else if cls \<in> set [''c_corp'', ''c corp'', ''c corporation'', ''c'']
        then ck env ''chk_c_corp'' st
      else if cls \<in> set [''s_corp'', ''s corp'', ''s corporation'', ''s'']
        then ck env ''chk_s_corp'' st
      else if cls \<in> set [''partnership'', ''p'']
        then ck env ''chk_partnership'' st
      else if cls \<in> set [''trust_estate'', ''trust'', ''estate'']
        then ck env ''chk_trust_estate'' st
      else if take 3 cls = ''llc''
        then (let code = upper_str (strip (or_empty (p_llc_tax_class d)))
              in run_steps
                   [ck env ''chk_llc'',
                    draw_text env (role_rect (env_widgets env) ''llc_code'')
                      (Some (if code = [] then ''C'' else code)) 10 ''left''] st)
      else if cls = ''other''
        then run_steps
               [ck env ''chk_other'',
                draw_text env (role_rect (env_widgets env) ''other_text'')
                  (Some (norm_str (p_other_text d))) 10 ''left''] st
      else Inr st)"

definition line3b :: "ov_env \<Rightarrow> profile \<Rightarrow> ov_state \<Rightarrow> error + ov_state" where
  "line3b env d st = (if p_line3b_foreign_flowthrough d then ck env ''chk_3b'' st else Inr st)"

text \<open>The taxpayer identification number.\<close>

definition tin :: "ov_env \<Rightarrow> profile \<Rightarrow> ov_state \<Rightarrow> error + ov_state" where
  "tin env d st =
     (let ssn = norm_str (p_ssn d); ein = norm_str (p_ein d) in
      if ssn \<noteq> [] \<and> ein = [] then
        (case split_ssn (Some ssn) of
           (a, b, c3) \<Rightarrow>
             run_steps
               [draw_digits env (role_rect (env_widgets env) ''ssn_1'') a 3 12,
                draw_digits env (role_rect (env_widgets env) ''ssn_2'') b 2 12,
                draw_digits env (role_rect (env_widgets env) ''ssn_3'') c3 4 12] st)
      else if ein \<noteq> [] then
        (case split_ein (Some ein) of
           (a, b) \<Rightarrow>
             run_steps
               [draw_digits env (role_rect (env_widgets env) ''ein_1'') a 2 12,
                draw_digits env (role_rect (env_widgets env) ''ein_2'') b 7 12] st)
      else Inr st)"

text \<open>
  Signature and date, at fixed coordinates. In aggressive mode the two PNG files are
  written but not appended to \<^verbatim>\<open>tmp_images\<close>.
\<close>

definition signature :: "ov_env \<Rightarrow> profile \<Rightarrow> ov_state \<Rightarrow> error + ov_state" where
  "signature env d st =
     (let sig_x = 115; sig_y = 125 + 72; date_x = 470; date_y = 125 + 72;
          date = (if norm_str (p_signature_date d) = [] then env_today env
                  else norm_str (p_signature_date d))
      in if env_aggr env then
           (let rect_sig = (sig_x, sig_y - 2, sig_x + 220, sig_y + 16);
                rect_date = (date_x, date_y - 2, date_x + 120, date_y + 16)
            in case save_png env (SingleLinePng (norm_str (p_signature d)) 220 18 11 ''left'') st of
                 (png, st) \<Rightarrow>
                   (case save_png env (SingleLinePng date 120 18 11 ''left'')
                           (st\<lparr>ov_canvas := draw_image_into_canvas (ov_canvas st) png
                                                 (Some rect_sig)\<rparr>) of
                      (png2, st) \<Rightarrow>
                        Inr (st\<lparr>ov_canvas := draw_image_into_canvas (ov_canvas st) png2
                                                   (Some rect_date)\<rparr>)))
         else
           (case cycler_next (env_fonts env) (ov_cycler st) of
              (f1, i1) \<Rightarrow>
                (case cycler_next (env_fonts env) i1 of
                   (f2, i2) \<Rightarrow>
                     Inr (st\<lparr>ov_cycler := i2,
                             ov_canvas := ov_canvas st
                               @ [SetFont f1 11, DrawString sig_x sig_y (norm_str (p_signature d)),
                                  SetFont f2 11, DrawString date_x date_y date]\<rparr>))))"

text \<open>The second address line: city and state joined by a comma, then the ZIP code.\<close>

definition city_state_zip :: "profile \<Rightarrow> string" where
  "city_state_zip d =
     (let city = norm_str (p_city d); state = norm_str (p_state d); zipc = norm_str (p_zip d);
          combined = (if city \<noteq> [] \<and> state \<noteq> [] then city @ '', '' @ state
                      else if city \<noteq> [] then city else state)
      in if zipc \<noteq> [] then strip (combined @ '' '' @ zipc) else combined)"

definition show_page :: "ov_state \<Rightarrow> error + ov_state" where
  "show_page st = Inr (st\<lparr>ov_canvas := ov_canvas st @ [ShowPage]\<rparr>)"

text \<open>
  \<^verbatim>\<open>compose_overlay_page1\<close>. The result holds the content of the overlay file, the list
  \<^verbatim>\<open>tmp_images\<close> the function returns, and the PNG files it left on disk. Reading page 1
  of a template without pages raises \<^verbatim>\<open>IndexError\<close>.
\<close>

definition compose_overlay_page1 ::
  "string_width \<Rightarrow> (nat \<Rightarrow> string) \<Rightarrow> bool \<Rightarrow> string \<Rightarrow> page list \<Rightarrow> profile \<Rightarrow> bool \<Rightarrow> bool
     \<Rightarrow> error + ov_state" where
  "compose_overlay_page1 sw tmp_png ttf_ok today template d fontwarp fontwarp_aggr =
     (case get_page_size template 0 of
        Inl e \<Rightarrow> Inl e
      | Inr wh \<Rightarrow>
     (case get_page_widgets template 0 of
        Inl e \<Rightarrow> Inl e
      | Inr widgets \<Rightarrow>
     (case register_fonts_for_overlay ttf_ok of
        (main_font, warp_list, bold_font) \<Rightarrow>
          let env = \<lparr>env_sw = sw, env_tmp_png = tmp_png,
                     env_fonts = cycler_fonts (if fontwarp then warp_list else [main_font]),
                     env_aggr = fontwarp_aggr, env_widgets = widgets, env_today = today\<rparr>;
              r = role_rect widgets
          in run_steps
               [draw_text env (r ''name'') (p_name d) 11 ''left'',
                draw_text env (r ''business'') (p_business_name d) 11 ''left'',
                draw_text env (r ''exempt'') (p_exempt_payee_code d) 10 ''left'',
                draw_text env (r ''fatca'') (p_fatca_code d) 10 ''left'',
                draw_text env (r ''addr1'') (p_address d) 10.5 ''left'',
                draw_text env (r ''addr2'') (Some (city_state_zip d)) 10.5 ''left'',
                draw_multiline env (r ''requester'') (p_requester_info d) 9.5,
                draw_text env (r ''accounts'') (p_account_numbers d) 10 ''left'',
                classification env d,
                line3b env d,
                tin env d,
                signature env d,
                show_page]
               \<lparr>ov_canvas = [], ov_cycler = 0, ov_tmp_images = [], ov_pngs = []\<rparr>)))"

section \<open>Example data\<close>

text \<open>
  A one-page template with the widgets the overlay addresses, a text measure of half the
  font size per character, temporary names in \<^verbatim>\<open>/tmp\<close>, and an empty data record: the
  inputs of the concrete runs below.
\<close>

fun str_of_nat :: "nat \<Rightarrow> string" where
  "str_of_nat n =
     (if n < 10 then [''0123456789'' ! n]
      else str_of_nat (n div 10) @ [''0123456789'' ! (n mod 10)])"

declare str_of_nat.simps [simp del]

definition ex_sw :: string_width where
  "ex_sw t f sz = of_nat (length t) * sz / 2"

definition ex_tmp_png :: "nat \<Rightarrow> string" where
  "ex_tmp_png k = ''/tmp/tmp'' @ str_of_nat k @ ''.png''"

definition ex_widgets :: "widget list" where
  "ex_widgets =
     [\<lparr>wg_name = ''f1_01[0]'', wg_type = ''/Tx'', wg_rect = (60, 700, 560, 716)\<rparr>,
      \<lparr>wg_name = ''f1_02[0]'', wg_type = ''/Tx'', wg_rect = (60, 676, 560, 692)\<rparr>,
      \<lparr>wg_name = ''c1_1[2]'', wg_type = ''/Btn'', wg_rect = (10, 20, 18, 28)\<rparr>,
      \<lparr>wg_name = ''f1_05[0]'', wg_type = ''/Tx'', wg_rect = (500, 640, 560, 656)\<rparr>,
      \<lparr>wg_name = ''f1_06[0]'', wg_type = ''/Tx'', wg_rect = (500, 616, 560, 632)\<rparr>,
      \<lparr>wg_name = ''f1_07[0]'', wg_type = ''/Tx'', wg_rect = (60, 590, 400, 606)\<rparr>,
      \<lparr>wg_name = ''f1_08[0]'', wg_type = ''/Tx'', wg_rect = (60, 566, 400, 582)\<rparr>,
      \<lparr>wg_name = ''f1_09[0]'', wg_type = ''/Tx'', wg_rect = (410, 566, 560, 606)\<rparr>,
      \<lparr>wg_name = ''f1_10[0]'', wg_type = ''/Tx'', wg_rect = (60, 542, 560, 558)\<rparr>,
      \<lparr>wg_name = ''f1_11[0]'', wg_type = ''/Tx'', wg_rect = (100, 50, 140, 66)\<rparr>,
      \<lparr>wg_name = ''f1_12[0]'', wg_type = ''/Tx'', wg_rect = (150, 50, 178, 66)\<rparr>,
      \<lparr>wg_name = ''f1_13[0]'', wg_type = ''/Tx'', wg_rect = (190, 50, 242, 66)\<rparr>,
      \<lparr>wg_name = ''f1_14[0]'', wg_type = ''/Tx'', wg_rect = (300, 50, 328, 66)\<rparr>,
      \<lparr>wg_name = ''f1_15[0]'', wg_type = ''/Tx'', wg_rect = (340, 50, 428, 66)\<rparr>]"

definition ex_env :: "bool \<Rightarrow> ov_env" where
  "ex_env aggr =
     \<lparr>env_sw = ex_sw, env_tmp_png = ex_tmp_png, env_fonts = [''Helvetica''],
      env_aggr = aggr, env_widgets = ex_widgets, env_today = ''2026-11-04''\<rparr>"

definition ex_state :: ov_state where
  "ex_state = \<lparr>ov_canvas = [], ov_cycler = 0, ov_tmp_images = [], ov_pngs = []\<rparr>"

definition empty_profile :: profile where
  "empty_profile =
     \<lparr>p_name = None, p_business_name = None, p_exempt_payee_code = None, p_fatca_code = None,
      p_address = None, p_city = None, p_state = None, p_zip = None, p_requester_info = None,
      p_account_numbers = None, p_classification = None, p_llc_tax_class = None,
      p_other_text = None, p_line3b_foreign_flowthrough = False, p_ssn = None, p_ein = None,
      p_signature = None, p_signature_date = None\<rparr>"

chapter \<open>Properties\<close>

section \<open>The single-line fitter\<close>

lemma fit_loop_le: "fit_loop wd w min_size sz \<le> sz"
proof (induction wd w min_size sz rule: fit_loop.induct)
  case (1 wd w min_size sz)
  show ?case
  proof (cases "min_size \<le> sz \<and> w < wd sz")
    case True
    with 1 have "fit_loop wd w min_size (sz - 0.2) \<le> sz - 0.2" by simp
    with True show ?thesis by (subst fit_loop.simps) simp
  next
    case False
    then show ?thesis by (subst fit_loop.simps) auto
  qed
qed

lemma fit_loop_exit:
  "fit_loop wd w min_size sz < min_size \<or> wd (fit_loop wd w min_size sz) \<le> w"
proof (induction wd w min_size sz rule: fit_loop.induct)
  case (1 wd w min_size sz)
  show ?case
  proof (cases "min_size \<le> sz \<and> w < wd sz")
    case True
    with 1 show ?thesis by (subst (1 2) fit_loop.simps) simp
  next
    case False
    then show ?thesis by (subst (1 2) fit_loop.simps) auto
  qed
qed

lemma fit_loop_none_fits:
  "\<forall>s. min_size \<le> s \<and> s \<le> sz \<longrightarrow> w < wd s \<Longrightarrow> fit_loop wd w min_size sz < min_size"
proof (induction wd w min_size sz rule: fit_loop.induct)
  case (1 wd w min_size sz)
  show ?case
  proof (cases "min_size \<le> sz")
    case True
    with "1.prems" have over: "w < wd sz" by simp
    have "\<forall>s. min_size \<le> s \<and> s \<le> sz - 0.2 \<longrightarrow> w < wd s"
      using "1.prems" by simp
    with 1 True over have "fit_loop wd w min_size (sz - 0.2) < min_size" by simp
    with True over show ?thesis by (subst fit_loop.simps) simp
  next
    case False
    then show ?thesis by (subst fit_loop.simps) auto
  qed
qed

lemma fit_size_bounds:
  assumes "min_size \<le> max_size"
  shows "min_size \<le> fit_size sw text font w max_size min_size"
    and "fit_size sw text font w max_size min_size \<le> max_size"
  using assms fit_loop_le [of "sw text font" w min_size max_size]
  by (simp_all add: fit_size_def)

lemma fit_size_fits:
  assumes "sw text font min_size \<le> w"
  shows "sw text font (fit_size sw text font w max_size min_size) \<le> w"
proof (cases "fit_loop (sw text font) w min_size max_size < min_size")
  case True
  then have "fit_size sw text font w max_size min_size = min_size"
    by (simp add: fit_size_def max_def)
  with assms show ?thesis by simp
next
  case False
  then have "fit_size sw text font w max_size min_size = fit_loop (sw text font) w min_size max_size"
    by (simp add: fit_size_def max_def)
  with False fit_loop_exit [of "sw text font" w min_size max_size] show ?thesis by simp
qed

lemma fit_size_none_fits:
  assumes "\<forall>s. min_size \<le> s \<and> s \<le> max_size \<longrightarrow> w < sw text font s"
  shows "fit_size sw text font w max_size min_size = min_size"
  using fit_loop_none_fits [OF assms] by (simp add: fit_size_def max_def)

text \<open>
  Claim C1. For a text that is not empty after \<^verbatim>\<open>norm\<close>, a rectangle and size bounds
  \<open>min_size \<le> max_size\<close>, \<^verbatim>\<open>draw_text_fit_vec\<close> always draws the text, once, at the size
  \<open>fit_size\<close>. That size lies in \<open>[min_size, max_size]\<close>. When the rectangle is wide enough
  for the text at \<open>min_size\<close> plus the two insets, the measured width at the chosen size
  plus the two insets is at most the width of the rectangle. When no size of the range
  fits, the chosen size is exactly \<open>min_size\<close>, and the text is drawn all the same.
\<close>

theorem draw_text_fit_vec_fits:
  fixes sw :: string_width and tx :: "string option" and font :: string
    and x0 y0 x1 y1 inset max_size min_size :: rat
  assumes "norm_str tx \<noteq> []" and "min_size \<le> max_size"
  defines "t \<equiv> norm_str tx"
  defines "sz \<equiv> fit_size sw (norm_str tx) font (x1 - x0 - 2 * inset) max_size min_size"
  shows "(\<exists>y. draw_text_fit_vec sw c tx (Some (x0, y0, x1, y1)) font max_size min_size inset vc
              = c @ [SetFont font sz, DrawString (x0 + inset) y t])
    \<and> min_size \<le> sz \<and> sz \<le> max_size
    \<and> (sw t font min_size + 2 * inset \<le> x1 - x0 \<longrightarrow> sw t font sz + 2 * inset \<le> x1 - x0)
    \<and> ((\<forall>s. min_size \<le> s \<and> s \<le> max_size \<longrightarrow> x1 - x0 < sw t font s + 2 * inset)
           \<longrightarrow> sz = min_size)"
proof -
  have draws: "\<exists>y. draw_text_fit_vec sw c tx (Some (x0, y0, x1, y1)) font max_size min_size inset vc
              = c @ [SetFont font sz, DrawString (x0 + inset) y t]"
    using assms(1) by (simp add: draw_text_fit_vec_def Let_def t_def sz_def)
  have range: "min_size \<le> sz \<and> sz \<le> max_size"
    using fit_size_bounds [OF assms(2)] by (simp add: sz_def)
  have fits: "sw t font min_size + 2 * inset \<le> x1 - x0 \<longrightarrow> sw t font sz + 2 * inset \<le> x1 - x0"
  proof
    assume "sw t font min_size + 2 * inset \<le> x1 - x0"
    then have "sw t font min_size \<le> x1 - x0 - 2 * inset" by simp
    then have "sw t font (fit_size sw t font (x1 - x0 - 2 * inset) max_size min_size)
        \<le> x1 - x0 - 2 * inset"
      by (rule fit_size_fits)
    then show "sw t font sz + 2 * inset \<le> x1 - x0"
      by (simp add: sz_def t_def)
  qed
  have clamp: "(\<forall>s. min_size \<le> s \<and> s \<le> max_size \<longrightarrow> x1 - x0 < sw t font s + 2 * inset)
           \<longrightarrow> sz = min_size"
  proof
    assume "\<forall>s. min_size \<le> s \<and> s \<le> max_size \<longrightarrow> x1 - x0 < sw t font s + 2 * inset"
    then have "\<forall>s. min_size \<le> s \<and> s \<le> max_size \<longrightarrow> x1 - x0 - 2 * inset < sw t font s"
      by (simp add: algebra_simps)
    then have "fit_size sw t font (x1 - x0 - 2 * inset) max_size min_size = min_size"
      by (rule fit_size_none_fits)
    then show "sz = min_size" by (simp add: sz_def t_def)
  qed
  from draws range fits clamp show ?thesis by (intro conjI) simp_all
qed

theorem draw_text_fit_vec_fits_witness:
  "norm_str (Some '' ab '') \<noteq> [] \<and> (7::rat) \<le> 10.5
   \<and> 6 * (7::rat) + 2 * 2 \<le> 64 - 0
   \<and> fit_size (\<lambda>t f s. of_nat (length t) * 3 * s) ''ab'' ''Helvetica'' (64 - 0 - 2 * 2) 10.5 7 = 9.9
   \<and> 6 * (9.9::rat) + 2 * 2 \<le> 64 - 0
   \<and> draw_text_fit_vec (\<lambda>t f s. of_nat (length t) * 3 * s) [] (Some '' ab '')
         (Some (0, 0, 64, 20)) ''Helvetica'' 10.5 7 2 True
       = [SetFont ''Helvetica'' 9.9, DrawString 2 5.55 ''ab'']
   \<and> fit_size (\<lambda>t f s. of_nat (length t) * 3 * s) ''ab'' ''Helvetica'' (10 - 0 - 2 * 2) 10.5 7 = 7"
proof -
  let ?sw = "\<lambda>(t::string) (f::string) (s::rat). of_nat (length t) * 3 * s"
  have n: "norm_str (Some '' ab '') = ''ab''"
    by (simp add: norm_str_def or_empty_def strip_def is_space_def)
  have ev: "fit_size ?sw ''ab'' ''Helvetica'' (64 - 0 - 2 * 2) 10.5 7 = 9.9"
    by (simp add: fit_size_def fit_loop.simps)
  have a: "\<forall>s::rat. 7 \<le> s \<and> s \<le> 10.5 \<longrightarrow> 10 - 0 < ?sw ''ab'' ''Helvetica'' s + 2 * 2"
    by simp
  note wide = draw_text_fit_vec_fits [where tx = "Some '' ab ''" and min_size = 7
      and max_size = "10.5" and sw = ?sw and font = "''Helvetica''" and ?x0.0 = 0 and ?y0.0 = 0
      and ?x1.0 = 64 and ?y1.0 = 20 and inset = 2 and c = "[]" and vc = True]
  note narrow = draw_text_fit_vec_fits [where tx = "Some '' ab ''" and min_size = 7
      and max_size = "10.5" and sw = ?sw and font = "''Helvetica''" and ?x0.0 = 0 and ?y0.0 = 0
      and ?x1.0 = 10 and ?y1.0 = 20 and inset = 2 and c = "[]" and vc = True]
  have d: "draw_text_fit_vec ?sw [] (Some '' ab '') (Some (0, 0, 64, 20)) ''Helvetica'' 10.5 7 2 True
       = [SetFont ''Helvetica'' 9.9, DrawString 2 5.55 ''ab'']"
    using wide ev n by (simp add: draw_text_fit_vec_def Let_def)
  have "fit_size ?sw ''ab'' ''Helvetica'' (10 - 0 - 2 * 2) 10.5 7 = 7"
    using narrow a n by simp
  with d ev n show ?thesis by simp
qed

section \<open>The tiling loops\<close>













lemma count_drawn_append: "count_drawn (a @ b) = count_drawn a + count_drawn b"
  by (simp add: count_drawn_def)







section \<open>Termination of the watermark composer\<close>





section \<open>The metadata synthesizer\<close>

lemma setdefault_apply:
  "setdefault m k v k' = (if k' = k then (case m k of None \<Rightarrow> Some v | Some old \<Rightarrow> Some old) else m k')"
  by (simp add: setdefault_def split: option.splits)

lemma finalize_info_apply:
  "finalize_info t (Some u) now k =
     (if k = ''/ModDate'' \<or> k = ''/CreationDate'' then Some now
      else if k = ''/Producer'' \<or> k = ''/Creator''
           then (case (t ++ u) k of None \<Rightarrow> Some ''Designer 6.5'' | Some v \<Rightarrow> Some v)
      else (t ++ u) k)"
  by (simp add: finalize_info_def Let_def setdefault_apply)

text \<open>
  Claim C3. \<^verbatim>\<open>finalize_info\<close> returns the template mapping overlaid by the user mapping:
  apart from the two date keys, a key of the user mapping has the user's value, and a key
  only the template has keeps the template's value. \<^verbatim>\<open>/Creator\<close> and \<^verbatim>\<open>/Producer\<close> get
  the default only when neither mapping has them. \<^verbatim>\<open>/CreationDate\<close> and \<^verbatim>\<open>/ModDate\<close>
  are both the timestamp of the call, whatever the template or the user supplied. A user
  mapping that is \<^verbatim>\<open>None\<close> counts as empty. The example of the claim holds.
\<close>

theorem finalize_info_overlay:
  "(\<forall>k v. u k = Some v \<and> k \<noteq> ''/CreationDate'' \<and> k \<noteq> ''/ModDate''
        \<longrightarrow> finalize_info t (Some u) now k = Some v)
   \<and> (\<forall>k. u k = None \<and> k \<notin> {''/CreationDate'', ''/ModDate'', ''/Creator'', ''/Producer''}
        \<longrightarrow> finalize_info t (Some u) now k = t k)
   \<and> (\<forall>k \<in> {''/Creator'', ''/Producer''}.
        finalize_info t (Some u) now k
          = (case u k of Some v \<Rightarrow> Some v
             | None \<Rightarrow> (case t k of Some v \<Rightarrow> Some v | None \<Rightarrow> Some ''Designer 6.5'')))
   \<and> finalize_info t (Some u) now ''/CreationDate'' = Some now
   \<and> finalize_info t (Some u) now ''/ModDate'' = Some now
   \<and> finalize_info t None now = finalize_info t (Some Map.empty) now
   \<and> finalize_info [''/Title'' \<mapsto> ''A''] (Some [''/Title'' \<mapsto> ''B'']) now ''/Title'' = Some ''B''"
proof (intro conjI allI impI ballI)
  fix k v
  assume "u k = Some v \<and> k \<noteq> ''/CreationDate'' \<and> k \<noteq> ''/ModDate''"
  then show "finalize_info t (Some u) now k = Some v"
    by (simp add: finalize_info_apply map_add_def)
next
  fix k
  assume "u k = None \<and> k \<notin> {''/CreationDate'', ''/ModDate'', ''/Creator'', ''/Producer''}"
  then show "finalize_info t (Some u) now k = t k"
    by (simp add: finalize_info_apply map_add_def)
next
  fix k :: string
  assume "k \<in> {''/Creator'', ''/Producer''}"
  then show "finalize_info t (Some u) now k
          = (case u k of Some v \<Rightarrow> Some v
             | None \<Rightarrow> (case t k of Some v \<Rightarrow> Some v | None \<Rightarrow> Some ''Designer 6.5''))"
    by (auto simp: finalize_info_apply map_add_def split: option.splits)
next
  show "finalize_info t (Some u) now ''/CreationDate'' = Some now"
    by (simp add: finalize_info_apply)
  show "finalize_info t (Some u) now ''/ModDate'' = Some now"
    by (simp add: finalize_info_apply)
  show "finalize_info t None now = finalize_info t (Some Map.empty) now"
    by (simp add: finalize_info_def)
  show "finalize_info [''/Title'' \<mapsto> ''A''] (Some [''/Title'' \<mapsto> ''B'']) now ''/Title'' = Some ''B''"
    by (simp add: finalize_info_apply)
qed

theorem finalize_info_overlay_witness:
  "finalize_info [''/Title'' \<mapsto> ''A'', ''/Creator'' \<mapsto> ''Word'', ''/CreationDate'' \<mapsto> ''D:1999'']
      (Some [''/Title'' \<mapsto> ''B'', ''/ModDate'' \<mapsto> ''D:2000'']) ''D:20261104120000Z'' ''/Title''
     = Some ''B''
   \<and> finalize_info [''/Title'' \<mapsto> ''A'', ''/Creator'' \<mapsto> ''Word'', ''/CreationDate'' \<mapsto> ''D:1999'']
      (Some [''/Title'' \<mapsto> ''B'', ''/ModDate'' \<mapsto> ''D:2000'']) ''D:20261104120000Z'' ''/Creator''
     = Some ''Word''
   \<and> finalize_info [''/Title'' \<mapsto> ''A'', ''/Creator'' \<mapsto> ''Word'', ''/CreationDate'' \<mapsto> ''D:1999'']
      (Some [''/Title'' \<mapsto> ''B'', ''/ModDate'' \<mapsto> ''D:2000'']) ''D:20261104120000Z'' ''/Producer''
     = Some ''Designer 6.5''
   \<and> finalize_info [''/Title'' \<mapsto> ''A'', ''/Creator'' \<mapsto> ''Word'', ''/CreationDate'' \<mapsto> ''D:1999'']
      (Some [''/Title'' \<mapsto> ''B'', ''/ModDate'' \<mapsto> ''D:2000'']) ''D:20261104120000Z'' ''/CreationDate''
     = Some ''D:20261104120000Z''
   \<and> finalize_info [''/Title'' \<mapsto> ''A'', ''/Creator'' \<mapsto> ''Word'', ''/CreationDate'' \<mapsto> ''D:1999'']
      (Some [''/Title'' \<mapsto> ''B'', ''/ModDate'' \<mapsto> ''D:2000'']) ''D:20261104120000Z'' ''/ModDate''
     = Some ''D:20261104120000Z''"
proof -
  let ?t = "[''/Title'' \<mapsto> ''A'', ''/Creator'' \<mapsto> ''Word'', ''/CreationDate'' \<mapsto> ''D:1999'']"
  let ?u = "[''/Title'' \<mapsto> ''B'', ''/ModDate'' \<mapsto> ''D:2000'']"
  note th = finalize_info_overlay [of ?u ?t "''D:20261104120000Z''"]
  from th have a: "finalize_info ?t (Some ?u) ''D:20261104120000Z'' ''/Title'' = Some ''B''"
    by simp
  from th have b: "finalize_info ?t (Some ?u) ''D:20261104120000Z'' ''/Creator'' = Some ''Word''"
    by simp
  from th have c: "finalize_info ?t (Some ?u) ''D:20261104120000Z'' ''/Producer'' = Some ''Designer 6.5''"
    by simp
  from th have d: "finalize_info ?t (Some ?u) ''D:20261104120000Z'' ''/CreationDate''
      = Some ''D:20261104120000Z''"
    by simp
  from th have e: "finalize_info ?t (Some ?u) ''D:20261104120000Z'' ''/ModDate''
      = Some ''D:20261104120000Z''"
    by simp
  from a b c d e show ?thesis by simp
qed

section \<open>The multi-line fitter\<close>

subsection \<open>Facts about \<open>strip\<close> and \<open>split_sp\<close>\<close>

lemma is_space_blank [simp]: "is_space (CHR '' '')"
  by (simp add: is_space_def)

lemma strip_Nil [simp]: "strip [] = []"
  by (simp add: strip_def)

lemma strip_blank_Cons [simp]: "strip (CHR '' '' # s) = strip s"
  by (simp add: strip_def)

lemma strip_append_blank [simp]: "strip (s @ '' '') = strip s"
proof (cases "\<forall>c \<in> set s. is_space c")
  case True
  then have d: "dropWhile is_space s = []" by (induction s) auto
  from True have e: "dropWhile is_space (s @ '' '') = []" by (simp add: dropWhile_append)
  show ?thesis by (simp only: strip_def d e)
next
  case False
  then have "dropWhile is_space (s @ '' '') = dropWhile is_space s @ '' ''"
    by (auto simp: dropWhile_append)
  then show ?thesis by (simp add: strip_def)
qed

lemma strip_id:
  assumes "s \<noteq> []" and "\<not> is_space (hd s)" and "\<not> is_space (last s)"
  shows "strip s = s"
proof -
  from assms(1,2) have a: "dropWhile is_space s = s" by (cases s) simp_all
  from assms(1) have "hd (rev s) = last s" by (simp add: hd_rev)
  moreover from assms(1) obtain x xs where r: "rev s = x # xs" by (cases "rev s") auto
  ultimately have "\<not> is_space x" using assms(3) by simp
  then have "dropWhile is_space (rev s) = rev s" unfolding r by simp
  with a show ?thesis by (simp add: strip_def)
qed

lemma length_strip_less:
  assumes "s \<noteq> []" and "is_space (hd s) \<or> is_space (last s)"
  shows "length (strip s) < length s"
proof -
  have le1: "length (dropWhile is_space s) \<le> length s" by (rule length_dropWhile_le)
  have le2: "length (strip s) \<le> length (dropWhile is_space s)"
    using length_dropWhile_le [of is_space "rev (dropWhile is_space s)"]
    by (simp add: strip_def)
  from assms(2) show ?thesis
  proof
    assume "is_space (hd s)"
    with assms(1) have "length (dropWhile is_space s) < length s"
      using length_dropWhile_le [of is_space "tl s"] by (cases s) simp_all
    with le2 show ?thesis by simp
  next
    assume sp: "is_space (last s)"
    show ?thesis
    proof (cases "dropWhile is_space s = s")
      case True
      from assms(1) sp have "is_space (hd (rev s))" by (simp add: hd_rev)
      with assms(1) have "length (dropWhile is_space (rev s)) < length (rev s)"
        using length_dropWhile_le [of is_space "tl (rev s)"] by (cases "rev s") simp_all
      with True show ?thesis by (simp add: strip_def)
    next
      case False
      have "length (dropWhile is_space s) \<noteq> length s"
      proof
        assume "length (dropWhile is_space s) = length s"
        moreover have "length (takeWhile is_space s @ dropWhile is_space s) = length s"
          by (simp only: takeWhile_dropWhile_id)
        then have "length (takeWhile is_space s) + length (dropWhile is_space s) = length s"
          by (simp only: length_append)
        ultimately have "takeWhile is_space s = []" by simp
        with takeWhile_dropWhile_id [of is_space s] have "dropWhile is_space s = s"
          by simp
        with False show False by simp
      qed
      with le1 le2 show ?thesis by simp
    qed
  qed
qed

lemma strip_fixed_ends:
  assumes "strip s = s" and "s \<noteq> []"
  shows "\<not> is_space (hd s) \<and> \<not> is_space (last s)"
  using length_strip_less [OF assms(2)] assms(1) by auto

lemma split_sp_nonempty [simp]: "split_sp s \<noteq> []"
  by (induction s) (auto split: list.splits)

lemma split_sp_no_blank: "w \<in> set (split_sp s) \<Longrightarrow> CHR '' '' \<notin> set w"
  by (induction s arbitrary: w) (auto split: list.splits if_splits)

lemma split_sp_word: "CHR '' '' \<notin> set w \<Longrightarrow> split_sp w = [w]"
  by (induction w) auto

lemma split_sp_append_blank: "split_sp (a @ CHR '' '' # b) = split_sp a @ split_sp b"
  by (induction a) (auto split: list.splits)

subsection \<open>The word loop\<close>

lemma wrap_words_append:
  "wrap_words wd mw lines cur (xs @ ys) =
     (case wrap_words wd mw lines cur xs of (l, c) \<Rightarrow> wrap_words wd mw l c ys)"
  by (induction xs arbitrary: lines cur) (simp_all add: Let_def)

lemma wrap_words_acc:
  "wrap_words wd mw (a @ b) cur ws =
     (a @ fst (wrap_words wd mw b cur ws), snd (wrap_words wd mw b cur ws))"
  by (induction ws arbitrary: b cur) (simp_all add: Let_def)

text \<open>
  A line is a fixed point of re-wrapping (with the measure \<open>wd\<close> and the width \<open>mw\<close>) when
  the word loop, run on its words from an empty line, finishes no line and is left with
  the line itself.
\<close>

definition rewrap_fixed :: "(string \<Rightarrow> rat) \<Rightarrow> rat \<Rightarrow> string \<Rightarrow> bool" where
  "rewrap_fixed wd mw l = (wrap_words wd mw [] [] (split_sp l) = ([], l))"

lemma rewrap_fixed_word:
  assumes "CHR '' '' \<notin> set w" and "strip w = w"
  shows "rewrap_fixed wd mw w"
  using assms by (simp add: rewrap_fixed_def split_sp_word Let_def)

lemma trial_extend:
  assumes "cur \<noteq> []" and "strip cur = cur" and "w \<noteq> []" and "strip w = w"
  shows "strip (cur @ '' '' @ w) = cur @ '' '' @ w"
proof (rule strip_id)
  show "cur @ '' '' @ w \<noteq> []" using assms(1) by simp
  show "\<not> is_space (hd (cur @ '' '' @ w))"
    using strip_fixed_ends [OF assms(2,1)] assms(1) by simp
  show "\<not> is_space (last (cur @ '' '' @ w))"
    using strip_fixed_ends [OF assms(4,3)] assms(3) by simp
qed

lemma rewrap_fixed_extend:
  assumes cur: "cur \<noteq> []" "strip cur = cur" "rewrap_fixed wd mw cur"
    and w: "w \<noteq> []" "strip w = w" "CHR '' '' \<notin> set w"
    and fits: "wd (cur @ '' '' @ w) \<le> mw"
  shows "rewrap_fixed wd mw (cur @ '' '' @ w)"
proof -
  have "split_sp (cur @ '' '' @ w) = split_sp cur @ [w]"
    using split_sp_append_blank [of cur w] w(3) by (simp add: split_sp_word)
  then have "wrap_words wd mw [] [] (split_sp (cur @ '' '' @ w)) = wrap_words wd mw [] cur [w]"
    using cur(3) by (simp add: wrap_words_append rewrap_fixed_def)
  also have "\<dots> = ([], cur @ '' '' @ w)"
    using trial_extend [OF cur(1,2) w(1,2)] fits by (simp add: Let_def)
  finally show ?thesis by (simp add: rewrap_fixed_def)
qed

text \<open>
  The invariant of the word loop. The words have no blank inside and no white space at
  either end; \<open>wd'\<close> is the measure of the re-wrap, under which a string fits whenever it
  fits under \<open>wd\<close>.
\<close>

lemma wrap_words_invariant:
  assumes "\<forall>w \<in> set ws. strip w = w \<and> CHR '' '' \<notin> set w"
    and "\<forall>t. wd t \<le> mw \<longrightarrow> wd' t \<le> mw"
    and "cur = [] \<or> (strip cur = cur \<and> rewrap_fixed wd' mw cur)"
    and "\<forall>l \<in> set lines. l \<noteq> [] \<and> rewrap_fixed wd' mw l"
    and "wrap_words wd mw lines cur ws = (lines', cur')"
  shows "(cur' = [] \<or> (strip cur' = cur' \<and> rewrap_fixed wd' mw cur'))
         \<and> (\<forall>l \<in> set lines'. l \<noteq> [] \<and> rewrap_fixed wd' mw l)"
  using assms
proof (induction ws arbitrary: lines cur)
  case Nil
  then show ?case by simp
next
  case (Cons w ws)
  from Cons.prems(1) have w: "strip w = w" "CHR '' '' \<notin> set w"
    and ws: "\<forall>w \<in> set ws. strip w = w \<and> CHR '' '' \<notin> set w"
    by simp_all
  have fw: "w = [] \<or> (strip w = w \<and> rewrap_fixed wd' mw w)"
    using w by (simp add: rewrap_fixed_word)
  let ?trial = "strip (cur @ '' '' @ w)"
  have trial: "?trial = (if cur = [] then w else if w = [] then cur else cur @ '' '' @ w)"
  proof (cases "cur = []")
    case True
    then show ?thesis using w(1) by simp
  next
    case False
    with Cons.prems(3) have sc: "strip cur = cur" by simp
    show ?thesis
    proof (cases "w = []")
      case True
      with False sc show ?thesis by simp
    next
      case nw: False
      from trial_extend [OF False sc nw w(1)] False nw show ?thesis by simp
    qed
  qed
  show ?case
  proof (cases "wd ?trial \<le> mw")
    case True
    then have run: "wrap_words wd mw lines ?trial ws = (lines', cur')"
      using Cons.prems(5) by (simp add: Let_def)
    have inv: "?trial = [] \<or> (strip ?trial = ?trial \<and> rewrap_fixed wd' mw ?trial)"
    proof (cases "cur = [] \<or> w = []")
      case True
      then show ?thesis using trial fw Cons.prems(3) by auto
    next
      case False
      then have c: "cur \<noteq> []" and nw: "w \<noteq> []" by simp_all
      with Cons.prems(3) have sc: "strip cur = cur" and rc: "rewrap_fixed wd' mw cur"
        by simp_all
      have t: "?trial = cur @ '' '' @ w" using trial c nw by simp
      from True t Cons.prems(2) have "wd' (cur @ '' '' @ w) \<le> mw" by simp
      from rewrap_fixed_extend [OF c sc rc nw w(1) w(2) this] t
      show ?thesis by simp
    qed
    from Cons.IH [OF ws Cons.prems(2) inv Cons.prems(4) run] show ?thesis .
  next
    case False
    let ?lines = "if cur \<noteq> [] then lines @ [cur] else lines"
    from False have run: "wrap_words wd mw ?lines w ws = (lines', cur')"
      using Cons.prems(5) by (simp add: Let_def)
    have li: "\<forall>l \<in> set ?lines. l \<noteq> [] \<and> rewrap_fixed wd' mw l"
      using Cons.prems(3,4) by auto
    from Cons.IH [OF ws Cons.prems(2) fw li run] show ?thesis .
  qed
qed

subsection \<open>The line loop and the re-wrap\<close>

lemma wrap_raws_invariant:
  assumes "\<forall>raw \<in> set raws. \<forall>w \<in> set (split_sp raw). strip w = w"
    and "\<forall>t. wd t \<le> mw \<longrightarrow> wd' t \<le> mw"
    and "\<forall>l \<in> set lines. l \<noteq> [] \<and> rewrap_fixed wd' mw l"
  shows "\<forall>l \<in> set (wrap_raws wd mw lines raws). l \<noteq> [] \<and> rewrap_fixed wd' mw l"
  using assms
proof (induction raws arbitrary: lines)
  case Nil
  then show ?case by simp
next
  case (Cons raw raws)
  obtain lines' cur' where run: "wrap_words wd mw lines [] (split_sp raw) = (lines', cur')"
    by (cases "wrap_words wd mw lines [] (split_sp raw)") simp
  have words: "\<forall>w \<in> set (split_sp raw). strip w = w \<and> CHR '' '' \<notin> set w"
    using Cons.prems(1) split_sp_no_blank [of _ raw] by simp
  from wrap_words_invariant [OF words Cons.prems(2) _ Cons.prems(3) run]
  have inv: "cur' = [] \<or> (strip cur' = cur' \<and> rewrap_fixed wd' mw cur')"
    and li: "\<forall>l \<in> set lines'. l \<noteq> [] \<and> rewrap_fixed wd' mw l"
    by simp_all
  let ?lines = "if cur' \<noteq> [] then lines' @ [cur'] else lines'"
  have li': "\<forall>l \<in> set ?lines. l \<noteq> [] \<and> rewrap_fixed wd' mw l"
    using inv li by auto
  have rest: "\<forall>raw \<in> set raws. \<forall>w \<in> set (split_sp raw). strip w = w"
    using Cons.prems(1) by simp
  have step: "wrap_raws wd mw lines (raw # raws) = wrap_raws wd mw ?lines raws"
    by (simp only: wrap_raws.simps run prod.case)
  from Cons.IH [OF rest Cons.prems(2) li'] show ?case
    by (simp only: step)
qed

lemma rewrap_identity:
  assumes "\<forall>l \<in> set ls. l \<noteq> [] \<and> rewrap_fixed wd mw l"
  shows "wrap_raws wd mw acc ls = acc @ ls"
  using assms
proof (induction ls arbitrary: acc)
  case Nil
  then show ?case by simp
next
  case (Cons l ls)
  then have l: "l \<noteq> []" and fx: "wrap_words wd mw [] [] (split_sp l) = ([], l)"
    by (simp_all add: rewrap_fixed_def)
  have "wrap_words wd mw acc [] (split_sp l) = (acc, l)"
    using wrap_words_acc [of wd mw acc "[]" "[]" "split_sp l"] fx by simp
  with l have "wrap_raws wd mw acc (l # ls) = wrap_raws wd mw (acc @ [l]) ls" by simp
  also have "\<dots> = (acc @ [l]) @ ls"
    by (rule Cons.IH) (use Cons.prems in simp)
  finally show ?case by simp
qed

lemma wrap_text_rewrap:
  assumes "\<forall>raw \<in> set (splitlines text). \<forall>w \<in> set (split_sp raw). strip w = w"
    and "\<forall>t. sw t font sz \<le> mw \<longrightarrow> sw t font sz' \<le> mw"
  shows "wrap_raws (\<lambda>t. sw t font sz') mw [] (wrap_text sw font sz mw text)
           = wrap_text sw font sz mw text"
proof -
  have "\<forall>l \<in> set (wrap_text sw font sz mw text).
          l \<noteq> [] \<and> rewrap_fixed (\<lambda>t. sw t font sz') mw l"
    unfolding wrap_text_def
    by (rule wrap_raws_invariant [OF assms(1)]) (use assms(2) in simp_all)
  from rewrap_identity [OF this] show ?thesis by simp
qed

subsection \<open>The size loop\<close>

lemma multiline_loop_lines:
  assumes "multiline_loop wrap avail leading min_size sz0 prev = (sz, Some ls)"
    and "prev = None \<or> prev = Some (wrap (sz0 + 0.2))"
  shows "ls = wrap sz \<or> ls = wrap (sz + 0.2)"
  using assms
proof (induction wrap avail leading min_size sz0 prev rule: multiline_loop.induct)
  case (1 wrap avail leading min_size sz0 prev)
  show ?case
  proof (cases "min_size \<le> sz0")
    case False
    with "1.prems" show ?thesis by (subst (asm) multiline_loop.simps) auto
  next
    case True
    show ?thesis
    proof (cases "of_nat (length (wrap sz0)) * (sz0 * leading) \<le> avail")
      case fits: True
      with True "1.prems"(1) show ?thesis
        by (subst (asm) multiline_loop.simps) (auto simp: Let_def)
    next
      case False
      with True "1.prems"(1)
      have run: "multiline_loop wrap avail leading min_size (sz0 - 0.2) (Some (wrap sz0))
                   = (sz, Some ls)"
        by (subst (asm) multiline_loop.simps) (simp add: Let_def)
      have "Some (wrap sz0) = None \<or> Some (wrap sz0) = Some (wrap (sz0 - 0.2 + 0.2))"
        by simp
      from "1.IH" [OF True refl refl False run this] show ?thesis .
    qed
  qed
qed

text \<open>
  Claim C8, as amended. When no word of the text (the pieces between blanks of each of
  its lines) begins or ends with a white-space character, and the measured width of a
  string does not grow when the size shrinks, the line list the multi-line fitter produces
  is a fixed point of the greedy word-wrap: wrapping the produced lines again, at the
  size the fitter chose and against the same width, gives the same line list.
\<close>

theorem multiline_fit_rewrap:
  assumes "\<forall>raw \<in> set (splitlines t). \<forall>w \<in> set (split_sp raw). strip w = w"
    and "\<forall>s a b. a \<le> b \<longrightarrow> sw s font a \<le> sw s font b"
    and "multiline_fit sw t font max_w avail max_size min_size leading = (sz, Some ls)"
  shows "wrap_raws (\<lambda>s. sw s font sz) max_w [] ls = ls"
proof -
  from multiline_loop_lines [OF assms(3) [unfolded multiline_fit_def]]
  have "ls = wrap_text sw font sz max_w t \<or> ls = wrap_text sw font (sz + 0.2) max_w t"
    by simp
  then show ?thesis
  proof
    assume l: "ls = wrap_text sw font sz max_w t"
    have "\<forall>s. sw s font sz \<le> max_w \<longrightarrow> sw s font sz \<le> max_w" by simp
    from wrap_text_rewrap [where sw = sw and font = font and sz = sz and sz' = sz
        and mw = max_w, OF assms(1) this]
    show ?thesis by (simp only: l)
  next
    assume l: "ls = wrap_text sw font (sz + 0.2) max_w t"
    have "\<forall>s. sw s font (sz + 0.2) \<le> max_w \<longrightarrow> sw s font sz \<le> max_w"
    proof (intro allI impI)
      fix s assume a: "sw s font (sz + 0.2) \<le> max_w"
      have "sz \<le> sz + 0.2" by simp
      with assms(2) have "sw s font sz \<le> sw s font (sz + 0.2)" by blast
      with a show "sw s font sz \<le> max_w" by simp
    qed
    from wrap_text_rewrap [where sw = sw and font = font and sz = "sz + 0.2" and sz' = sz
        and mw = max_w, OF assms(1) this]
    show ?thesis by (simp only: l)
  qed
qed

theorem multiline_fit_rewrap_witness:
  "multiline_fit (\<lambda>s f z. of_nat (length s) * z / 2) ''aa bb cc'' ''Helvetica'' 24 96 9.5 7.5 1.2
     = (9.5, Some [''aa bb'', ''cc''])
   \<and> wrap_raws (\<lambda>s. of_nat (length s) * 9.5 / 2) 24 [] [''aa bb'', ''cc''] = [''aa bb'', ''cc'']
   \<and> multiline_fit (\<lambda>s f z. of_nat (length s) * z / 2) ''aa bb'' ''Helvetica'' 18.5 6 7.7 7.5 1.2
     = (7.3, Some [''aa'', ''bb''])
   \<and> wrap_raws (\<lambda>s. of_nat (length s) * 7.3 / 2) 18.5 [] [''aa'', ''bb''] = [''aa'', ''bb'']"
proof -
  let ?sw = "\<lambda>(s::string) (f::string) (z::rat). of_nat (length s) * z / 2"
  have sp: "\<not> is_space CHR ''a''" "\<not> is_space CHR ''b''" "\<not> is_space CHR ''c''"
    by (simp_all add: is_space_def)
  have m: "\<forall>s a b. a \<le> b \<longrightarrow> ?sw s ''Helvetica'' a \<le> ?sw s ''Helvetica'' b"
    by (simp add: mult_left_mono divide_right_mono)
  have w1: "\<forall>raw \<in> set (splitlines ''aa bb cc''). \<forall>w \<in> set (split_sp raw). strip w = w"
    by (simp add: splitlines_def is_linebreak_def strip_def sp)
  have w2: "\<forall>raw \<in> set (splitlines ''aa bb''). \<forall>w \<in> set (split_sp raw). strip w = w"
    by (simp add: splitlines_def is_linebreak_def strip_def sp)
  have f1: "multiline_fit ?sw ''aa bb cc'' ''Helvetica'' 24 96 9.5 7.5 1.2
     = (9.5, Some [''aa bb'', ''cc''])"
    by (simp add: multiline_fit_def multiline_loop.simps wrap_text_def splitlines_def
        is_linebreak_def strip_def sp Let_def)
  have f2: "multiline_fit ?sw ''aa bb'' ''Helvetica'' 18.5 6 7.7 7.5 1.2
     = (7.3, Some [''aa'', ''bb''])"
    by (simp add: multiline_fit_def multiline_loop.simps wrap_text_def splitlines_def
        is_linebreak_def strip_def sp Let_def)
  from multiline_fit_rewrap [OF w1 m f1] multiline_fit_rewrap [OF w2 m f2] f1 f2
  show ?thesis by simp
qed

text \<open>
  Without the condition on the words the property fails. The second word of
  \<^verbatim>\<open>"aaaa \tb"\<close> begins with a tab; it does not fit on the first line and is taken as a
  line as it stands, but the re-wrap strips the tab.
\<close>

theorem multiline_fit_rewrap_counterexample:
  "multiline_fit (\<lambda>s f z. of_nat (length s) * z / 2)
      [CHR ''a'', CHR ''a'', CHR ''a'', CHR ''a'', CHR '' '', CHR 0x09, CHR ''b'']
      ''Helvetica'' 26 96 9.5 7.5 1.2
     = (9.5, Some [''aaaa'', [CHR 0x09, CHR ''b'']])
   \<and> wrap_raws (\<lambda>s. of_nat (length s) * 9.5 / 2) 26 [] [''aaaa'', [CHR 0x09, CHR ''b'']]
     = [''aaaa'', ''b'']
   \<and> wrap_raws (\<lambda>s. of_nat (length s) * 9.5 / 2) 26 [] [''aaaa'', [CHR 0x09, CHR ''b'']]
     \<noteq> [''aaaa'', [CHR 0x09, CHR ''b'']]"
proof -
  have sp: "\<not> is_space CHR ''a''" "\<not> is_space CHR ''b''" "is_space (CHR 0x09)"
    by (simp_all add: is_space_def)
  have lb: "\<not> is_linebreak CHR ''a''" "\<not> is_linebreak CHR ''b''" "\<not> is_linebreak (CHR 0x09)"
    "\<not> is_linebreak CHR '' ''"
    by (simp_all add: is_linebreak_def)
  have f: "multiline_fit (\<lambda>s f z. of_nat (length s) * z / 2)
      [CHR ''a'', CHR ''a'', CHR ''a'', CHR ''a'', CHR '' '', CHR 0x09, CHR ''b'']
      ''Helvetica'' 26 96 9.5 7.5 1.2
     = (9.5, Some [''aaaa'', [CHR 0x09, CHR ''b'']])"
    by (simp add: multiline_fit_def multiline_loop.simps wrap_text_def splitlines_def
        lb strip_def sp Let_def)
  have r: "wrap_raws (\<lambda>s. of_nat (length s) * 9.5 / 2) 26 [] [''aaaa'', [CHR 0x09, CHR ''b'']]
     = [''aaaa'', ''b'']"
    by (simp add: strip_def sp Let_def)
  from f r show ?thesis by simp
qed

end
